theory Spec2Isabelle
  imports Complex_Main
begin

section \<open>Python values used by the grading handler\<close>

text \<open>
  The service is one Flask view, \<^verbatim>\<open>grade\<close> in \<^verbatim>\<open>backend1.py\<close>. Everything it
  touches is a Python \<^verbatim>\<open>str\<close> or a value produced by \<^verbatim>\<open>json.loads\<close>.

  A Python \<^verbatim>\<open>str\<close> is a sequence of Unicode code points, so it is modelled as a list of
  natural numbers (an 8-bit \<open>char\<close> could not tell the whitespace U+2003 from a letter).
  \<open>py\<close> turns an ASCII literal of the theory into such a string.
\<close>

type_synonym pystr = "nat list"

definition py :: "string \<Rightarrow> pystr" where
  "py s = map of_char s"

text \<open>
  The values \<^verbatim>\<open>json.loads\<close> builds. \<open>JNull\<close> is Python's \<^verbatim>\<open>None\<close>. A \<^verbatim>\<open>dict\<close> keeps its
  keys in insertion order, so an object is an association list (with distinct keys when
  it comes from the decoder). A \<^verbatim>\<open>float\<close> is kept as the literal it was read from: the
  handler never computes with it.
\<close>

datatype json =
    JNull
  | JBool bool
  | JInt int
  | JFloat pystr
  | JString pystr
  | JArray "json list"
  | JObject "(pystr \<times> json) list"

text \<open>
  The exceptions that can be raised inside the \<^verbatim>\<open>try\<close> block of \<^verbatim>\<open>grade\<close>. All of them are
  instances of \<^verbatim>\<open>Exception\<close>.
\<close>

datatype exn =
    AttributeError pystr pystr  \<comment> \<open>type name of the object, attribute looked up\<close>
  | IndexError
  | JSONDecodeError pystr pystr nat  \<comment> \<open>\<^verbatim>\<open>msg\<close>, \<^verbatim>\<open>doc\<close>, \<^verbatim>\<open>pos\<close>\<close>
  | RecursionError
  | APIError pystr  \<comment> \<open>raised by the completion client; carries its \<^verbatim>\<open>str()\<close>\<close>
  | OSError pystr  \<comment> \<open>raised by the stream of the log handler; carries its \<^verbatim>\<open>str()\<close>\<close>
  | UnicodeEncodeError pystr  \<comment> \<open>raised by the stream of the log handler; carries its \<^verbatim>\<open>str()\<close>\<close>

subsection \<open>\<^verbatim>\<open>str.strip()\<close>\<close>

text \<open>The code points for which \<^verbatim>\<open>str.isspace()\<close> holds (CPython's \<^verbatim>\<open>_PyUnicode_IsWhitespace\<close>).\<close>

definition isspace :: "nat \<Rightarrow> bool" where
  "isspace c \<longleftrightarrow>
     (9 \<le> c \<and> c \<le> 13) \<or> (28 \<le> c \<and> c \<le> 32) \<or> c = 133 \<or> c = 160 \<or> c = 5760 \<or>
     (8192 \<le> c \<and> c \<le> 8202) \<or> c = 8232 \<or> c = 8233 \<or> c = 8239 \<or> c = 8287 \<or> c = 12288"

definition strip :: "pystr \<Rightarrow> pystr" where
  "strip s = rev (dropWhile isspace (rev (dropWhile isspace s)))"

subsection \<open>\<^verbatim>\<open>re.search(r"\{.*\}", text, re.S)\<close>\<close>

text \<open>
  With \<^verbatim>\<open>re.S\<close> the dot matches every character, and the star is greedy: the leftmost
  match starts at the first \<^verbatim>\<open>{\<close> and runs to the last \<^verbatim>\<open>}\<close> after it. There is no match
  when the text has no \<^verbatim>\<open>{\<close>, or no \<^verbatim>\<open>}\<close> after the first one. The result is \<^verbatim>\<open>match.group(0)\<close>.
\<close>

definition lbrace :: nat where "lbrace = 123"
definition rbrace :: nat where "rbrace = 125"

definition upto_last :: "nat \<Rightarrow> pystr \<Rightarrow> pystr" where
  "upto_last c s = rev (dropWhile (\<lambda>x. x \<noteq> c) (rev s))"

definition re_search_braces :: "pystr \<Rightarrow> pystr option" where
  "re_search_braces text =
     (let from_first = dropWhile (\<lambda>x. x \<noteq> lbrace) text
      in if from_first \<noteq> [] \<and> rbrace \<in> set (tl from_first)
         then Some (upto_last rbrace from_first) else None)"

subsection \<open>\<^verbatim>\<open>json.loads\<close>\<close>

text \<open>
  The decoder of the standard library (CPython 3.11, module \<^verbatim>\<open>json\<close> with its \<^verbatim>\<open>_json\<close>
  scanner), function by function: \<^verbatim>\<open>scanstring\<close>, \<^verbatim>\<open>_match_number\<close>, \<^verbatim>\<open>scan_once\<close>,
  \<^verbatim>\<open>_parse_object\<close>, \<^verbatim>\<open>_parse_array\<close>, \<^verbatim>\<open>JSONDecoder.decode\<close>, \<^verbatim>\<open>json.loads\<close>.
  Where the C code keeps an index into the document, the model keeps the suffix that is
  still unread; an error records how many characters were unread at the place it points
  to, and \<open>json_loads\<close> turns that into the \<^verbatim>\<open>pos\<close> of the \<^verbatim>\<open>JSONDecodeError\<close>.

  Two limits of the interpreter are left out: the cap on the number of digits of an
  integer literal, and the bound on the nesting depth. The recursion of the scanner runs
  on a budget instead, which \<open>json_loads\<close> sets to twice the length of the document
  and two more; a budget that runs out would be reported as \<^verbatim>\<open>RecursionError\<close>, and
  never does (lemma \<open>json_loads_no_RecursionError\<close>).
\<close>

datatype scan_error =
    Fail pystr nat  \<comment> \<open>message, number of characters unread at the error position\<close>
  | Exhausted

definition is_json_ws :: "nat \<Rightarrow> bool" where
  "is_json_ws c \<longleftrightarrow> c = 32 \<or> c = 9 \<or> c = 10 \<or> c = 13"

definition skip_ws :: "pystr \<Rightarrow> pystr" where
  "skip_ws s = dropWhile is_json_ws s"

definition is_digit :: "nat \<Rightarrow> bool" where
  "is_digit c \<longleftrightarrow> 48 \<le> c \<and> c \<le> 57"

definition hexval :: "nat \<Rightarrow> nat option" where
  "hexval c =
     (if 48 \<le> c \<and> c \<le> 57 then Some (c - 48)
      else if 97 \<le> c \<and> c \<le> 102 then Some (c - 87)
      else if 65 \<le> c \<and> c \<le> 70 then Some (c - 55)
      else None)"

fun hex_digits :: "nat \<Rightarrow> pystr \<Rightarrow> nat option" where
  "hex_digits a [] = Some a"
| "hex_digits a (d # ds) =
     (case hexval d of None \<Rightarrow> None | Some v \<Rightarrow> hex_digits (16 * a + v) ds)"

definition escape_char :: "nat \<Rightarrow> nat option" where
  "escape_char e =
     (if e = 34 \<or> e = 92 \<or> e = 47 then Some e
      else if e = 98 then Some 8
      else if e = 102 then Some 12
      else if e = 110 then Some 10
      else if e = 114 then Some 13
      else if e = 116 then Some 9
      else None)"

definition msg_unterminated :: pystr where
  "msg_unterminated = py ''Unterminated string starting at''"

definition msg_control :: pystr where
  "msg_control = py ''Invalid control character at''"

definition msg_escape :: pystr where
  "msg_escape = py ''Invalid '' @ [92] @ py ''escape''"

definition msg_uescape :: pystr where
  "msg_uescape = py ''Invalid '' @ [92] @ py ''uXXXX escape''"

definition msg_value :: pystr where
  "msg_value = py ''Expecting value''"

definition msg_name :: pystr where
  "msg_name = py ''Expecting property name enclosed in double quotes''"

definition msg_colon :: pystr where
  "msg_colon = py ''Expecting '' @ [39] @ py '':'' @ [39] @ py '' delimiter''"

definition msg_comma :: pystr where
  "msg_comma = py ''Expecting '' @ [39] @ py '','' @ [39] @ py '' delimiter''"

definition msg_extra :: pystr where
  "msg_extra = py ''Extra data''"

definition msg_bom :: pystr where
  "msg_bom = py ''Unexpected UTF-8 BOM (decode using utf-8-sig)''"

text \<open>
  \<^verbatim>\<open>scanstring\<close>, entered after the opening quote. \<open>b\<close> is the number of characters that
  were unread at the opening quote, \<open>acc\<close> the characters decoded so far.
\<close>

function scanstring :: "nat \<Rightarrow> pystr \<Rightarrow> pystr \<Rightarrow> scan_error + (pystr \<times> pystr)" where
  "scanstring b acc [] = Inl (Fail msg_unterminated b)"
| "scanstring b acc (c # s) =
     (if c = 34 then Inr (acc, s)
      else if c = 92 then
        (case s of
           [] \<Rightarrow> Inl (Fail msg_unterminated b)
         | e # r \<Rightarrow>
             if e \<noteq> 117 then
               (case escape_char e of
                  None \<Rightarrow> Inl (Fail msg_escape (length r + 2))
                | Some ch \<Rightarrow> scanstring b (acc @ [ch]) r)
             else if length r \<le> 4 then Inl (Fail msg_uescape (length r + 1))
             else
               (case hex_digits 0 (take 4 r) of
                  None \<Rightarrow> Inl (Fail msg_uescape (length r + 1))
                | Some u \<Rightarrow>
                    let r1 = drop 4 r in
                    if 55296 \<le> u \<and> u \<le> 56319 \<and> 6 < length r1 \<and> take 2 r1 = [92, 117] then
                      (case hex_digits 0 (take 4 (drop 2 r1)) of
                         None \<Rightarrow> Inl (Fail msg_uescape (length r1 - 1))
                       | Some u2 \<Rightarrow>
                           if 56320 \<le> u2 \<and> u2 \<le> 57343
                           then scanstring b
                                  (acc @ [65536 + (u - 55296) * 1024 + (u2 - 56320)])
                                  (drop 6 r1)
                           else scanstring b (acc @ [u]) r1)
                    else scanstring b (acc @ [u]) r1))
      else if c \<le> 31 then Inl (Fail msg_control (length s + 1))
      else scanstring b (acc @ [c]) s)"
  by pat_completeness auto
termination
  by (relation "measure (\<lambda>(b, acc, s). length s)") auto

text \<open>
  \<^verbatim>\<open>int(numstr)\<close> for a run of decimal digits, and \<^verbatim>\<open>_match_number\<close>: an optional minus,
  an integer part without a leading zero, an optional fraction, an optional exponent.
  With a fraction or an exponent the value is a \<^verbatim>\<open>float\<close>, otherwise an \<^verbatim>\<open>int\<close>.
\<close>

definition digits_value :: "pystr \<Rightarrow> int" where
  "digits_value ds = foldl (\<lambda>a d. 10 * a + int (d - 48)) 0 ds"

definition match_number :: "pystr \<Rightarrow> scan_error + (json \<times> pystr)" where
  "match_number s =
     (let neg = (s \<noteq> [] \<and> hd s = 45);
          t = (if neg then tl s else s);
          ip = (if t \<noteq> [] \<and> hd t = 48 then [48] else takeWhile is_digit t);
          u = drop (length ip) t;
          fp = (case u of
                  d # f # _ \<Rightarrow> if d = 46 \<and> is_digit f then d # takeWhile is_digit (tl u) else []
                | _ \<Rightarrow> []);
          v = drop (length fp) u;
          ep = (case v of
                  e # w \<Rightarrow>
                    if e = 101 \<or> e = 69 then
                      (let sg = (case w of
                                   g # _ # _ \<Rightarrow> if g = 45 \<or> g = 43 then [g] else []
                                 | _ \<Rightarrow> []);
                           ds = takeWhile is_digit (drop (length sg) w)
                       in if ds = [] then [] else e # sg @ ds)
                    else []
                | [] \<Rightarrow> []);
          rest = drop (length ep) v
      in if ip = [] then Inl (Fail msg_value (length s))
         else if fp = [] \<and> ep = []
           then Inr (JInt (if neg then - digits_value ip else digits_value ip), rest)
           else Inr (JFloat ((if neg then [45] else []) @ ip @ fp @ ep), rest))"

text \<open>\<^verbatim>\<open>PyDict_SetItem\<close>: a key that is already there keeps its place and gets the new value.\<close>

fun dict_set :: "pystr \<Rightarrow> json \<Rightarrow> (pystr \<times> json) list \<Rightarrow> (pystr \<times> json) list" where
  "dict_set k v [] = [(k, v)]"
| "dict_set k v (p # ps) = (if fst p = k then (k, v) # ps else p # dict_set k v ps)"

definition starts_with :: "pystr \<Rightarrow> pystr \<Rightarrow> bool" where
  "starts_with p s \<longleftrightarrow> take (length p) s = p"

text \<open>
  \<^verbatim>\<open>scan_once\<close> with the loops of \<^verbatim>\<open>_parse_object\<close> and \<^verbatim>\<open>_parse_array\<close>. \<open>object_members\<close>
  is entered where a key has to start, \<open>array_elements\<close> where an element has to start.
  A \<^verbatim>\<open>StopIteration\<close> of the scanner becomes \<^verbatim>\<open>Expecting value\<close> in \<^verbatim>\<open>raw_decode\<close>; it is
  given that message at once.
\<close>

fun scan_once :: "nat \<Rightarrow> pystr \<Rightarrow> scan_error + (json \<times> pystr)"
  and object_members ::
    "nat \<Rightarrow> pystr \<Rightarrow> (pystr \<times> json) list \<Rightarrow> scan_error + (json \<times> pystr)"
  and array_elements :: "nat \<Rightarrow> pystr \<Rightarrow> json list \<Rightarrow> scan_error + (json \<times> pystr)"
where
  "scan_once 0 s = Inl Exhausted"
| "scan_once (Suc n) [] = Inl (Fail msg_value 0)"
| "scan_once (Suc n) (c # cs) =
     (if c = 34 then
        (case scanstring (Suc (length cs)) [] cs of
           Inl e \<Rightarrow> Inl e
         | Inr (str, rest) \<Rightarrow> Inr (JString str, rest))
      else if c = 123 then
        (case skip_ws cs of
           [] \<Rightarrow> object_members n [] []
         | d # ds \<Rightarrow> if d = 125 then Inr (JObject [], ds) else object_members n (d # ds) [])
      else if c = 91 then
        (case skip_ws cs of
           [] \<Rightarrow> array_elements n [] []
         | d # ds \<Rightarrow> if d = 93 then Inr (JArray [], ds) else array_elements n (d # ds) [])
      else if starts_with (py ''null'') (c # cs) then Inr (JNull, drop 4 (c # cs))
      else if starts_with (py ''true'') (c # cs) then Inr (JBool True, drop 4 (c # cs))
      else if starts_with (py ''false'') (c # cs) then Inr (JBool False, drop 5 (c # cs))
      else if starts_with (py ''NaN'') (c # cs) then Inr (JFloat (py ''NaN''), drop 3 (c # cs))
      else if starts_with (py ''Infinity'') (c # cs)
        then Inr (JFloat (py ''Infinity''), drop 8 (c # cs))
      else if starts_with (py ''-Infinity'') (c # cs)
        then Inr (JFloat (py ''-Infinity''), drop 9 (c # cs))
      else match_number (c # cs))"
| "object_members 0 s pairs = Inl Exhausted"
| "object_members (Suc n) [] pairs = Inl (Fail msg_name 0)"
| "object_members (Suc n) (c # cs) pairs =
     (if c \<noteq> 34 then Inl (Fail msg_name (Suc (length cs)))
      else
        (case scanstring (Suc (length cs)) [] cs of
           Inl e \<Rightarrow> Inl e
         | Inr (key, s2) \<Rightarrow>
             (case skip_ws s2 of
                [] \<Rightarrow> Inl (Fail msg_colon 0)
              | d # s3 \<Rightarrow>
                  if d \<noteq> 58 then Inl (Fail msg_colon (Suc (length s3)))
                  else
                    (case scan_once n (skip_ws s3) of
                       Inl e \<Rightarrow> Inl e
                     | Inr (v, s5) \<Rightarrow>
                         (case skip_ws s5 of
                            [] \<Rightarrow> Inl (Fail msg_comma 0)
                          | x # s6 \<Rightarrow>
                              if x = 125 then Inr (JObject (dict_set key v pairs), s6)
                              else if x \<noteq> 44 then Inl (Fail msg_comma (Suc (length s6)))
                              else object_members n (skip_ws s6) (dict_set key v pairs))))))"
| "array_elements 0 s acc = Inl Exhausted"
| "array_elements (Suc n) s acc =
     (case scan_once n s of
        Inl e \<Rightarrow> Inl e
      | Inr (v, s1) \<Rightarrow>
          (case skip_ws s1 of
             [] \<Rightarrow> Inl (Fail msg_comma 0)
           | x # s2 \<Rightarrow>
               if x = 93 then Inr (JArray (acc @ [v]), s2)
               else if x \<noteq> 44 then Inl (Fail msg_comma (Suc (length s2)))
               else array_elements n (skip_ws s2) (acc @ [v])))"

text \<open>
  \<^verbatim>\<open>json.loads\<close> on a \<^verbatim>\<open>str\<close>: the check for a byte order mark, then \<^verbatim>\<open>decode\<close>, which
  skips whitespace, scans one value and accepts only whitespace after it.
\<close>

definition json_loads :: "pystr \<Rightarrow> exn + json" where
  "json_loads doc =
     (if starts_with [65279] doc then Inl (JSONDecodeError msg_bom doc 0)
      else
        (case scan_once (2 * length doc + 2) (skip_ws doc) of
           Inl Exhausted \<Rightarrow> Inl RecursionError
         | Inl (Fail m unread) \<Rightarrow> Inl (JSONDecodeError m doc (length doc - unread))
         | Inr (v, rest) \<Rightarrow>
             (case skip_ws rest of
                [] \<Rightarrow> Inr v
              | _ # _ \<Rightarrow>
                  Inl (JSONDecodeError msg_extra doc (length doc - length (skip_ws rest))))))"

section \<open>Python operations the handler applies to these values\<close>

text \<open>
  Truth value testing, as \<^verbatim>\<open>x or y\<close> needs it. A \<^verbatim>\<open>float\<close> is false when it is zero: the
  literal denotes zero, or it is so small that the nearest double is zero, which is the
  case exactly when its magnitude is at most \<open>2 ^ -1075\<close>. \<^verbatim>\<open>NaN\<close> and the infinities
  are true.
\<close>

definition float_is_zero :: "pystr \<Rightarrow> bool" where
  "float_is_zero lexeme =
     (let unsigned = (case lexeme of [] \<Rightarrow> [] | c # cs \<Rightarrow> if c = 45 then cs else c # cs);
          mantissa = takeWhile (\<lambda>c. c \<noteq> 101 \<and> c \<noteq> 69) unsigned;
          exponent = drop (Suc (length mantissa)) unsigned;
          fraction = drop 1 (dropWhile (\<lambda>c. c \<noteq> 46) mantissa);
          m = digits_value (filter is_digit mantissa);
          e = (case exponent of
                 [] \<Rightarrow> 0
               | c # cs \<Rightarrow>
                   if c = 45 then - digits_value cs
                   else if c = 43 then digits_value cs
                   else digits_value (c # cs));
          scale = e - int (length fraction)
      in case unsigned of
           [] \<Rightarrow> False
         | c # _ \<Rightarrow>
             is_digit c \<and>
             (if 0 \<le> scale then m = 0 else m * 2 ^ 1075 \<le> 10 ^ nat (- scale)))"

fun truthy :: "json \<Rightarrow> bool" where
  "truthy JNull = False"
| "truthy (JBool b) = b"
| "truthy (JInt i) = (i \<noteq> 0)"
| "truthy (JFloat x) = (\<not> float_is_zero x)"
| "truthy (JString s) = (s \<noteq> [])"
| "truthy (JArray xs) = (xs \<noteq> [])"
| "truthy (JObject kvs) = (kvs \<noteq> [])"

definition py_or :: "json \<Rightarrow> json \<Rightarrow> json" where
  "py_or x y = (if truthy x then x else y)"

fun type_name :: "json \<Rightarrow> pystr" where
  "type_name JNull = py ''NoneType''"
| "type_name (JBool b) = py ''bool''"
| "type_name (JInt i) = py ''int''"
| "type_name (JFloat x) = py ''float''"
| "type_name (JString s) = py ''str''"
| "type_name (JArray xs) = py ''list''"
| "type_name (JObject kvs) = py ''dict''"

text \<open>
  \<^verbatim>\<open>x.get(key)\<close>, \<^verbatim>\<open>x.strip()\<close> and \<^verbatim>\<open>x.keys()\<close>. Only a \<^verbatim>\<open>dict\<close> has \<^verbatim>\<open>get\<close> and \<^verbatim>\<open>keys\<close>, only
  a \<^verbatim>\<open>str\<close> has \<^verbatim>\<open>strip\<close>; on any other value the attribute lookup raises.
\<close>

fun dict_get :: "json \<Rightarrow> pystr \<Rightarrow> exn + json" where
  "dict_get (JObject kvs) k = Inr (case map_of kvs k of None \<Rightarrow> JNull | Some v \<Rightarrow> v)"
| "dict_get v k = Inl (AttributeError (type_name v) (py ''get''))"

fun str_strip :: "json \<Rightarrow> exn + pystr" where
  "str_strip (JString s) = Inr (strip s)"
| "str_strip v = Inl (AttributeError (type_name v) (py ''strip''))"

fun dict_keys :: "json \<Rightarrow> exn + pystr list" where
  "dict_keys (JObject kvs) = Inr (map fst kvs)"
| "dict_keys v = Inl (AttributeError (type_name v) (py ''keys''))"

text \<open>\<^verbatim>\<open>str(e)\<close> for the exceptions above.\<close>

fun decimal :: "nat \<Rightarrow> pystr" where
  "decimal n = (if n < 10 then [48 + n] else decimal (n div 10) @ [48 + n mod 10])"

fun str_exn :: "exn \<Rightarrow> pystr" where
  "str_exn (AttributeError t a) =
     [39] @ t @ [39] @ py '' object has no attribute '' @ [39] @ a @ [39]"
| "str_exn IndexError = py ''list index out of range''"
| "str_exn (JSONDecodeError m doc pos) =
     m @ py '': line '' @ decimal (Suc (count_list (take pos doc) 10))
       @ py '' column '' @ decimal (Suc (length (takeWhile (\<lambda>c. c \<noteq> 10) (rev (take pos doc)))))
       @ py '' (char '' @ decimal pos @ py '')''"
| "str_exn RecursionError = py ''maximum recursion depth exceeded''"
| "str_exn (APIError m) = m"
| "str_exn (OSError m) = m"
| "str_exn (UnicodeEncodeError m) = m"

section \<open>The world outside the handler\<close>

text \<open>
  \<^verbatim>\<open>request.get_json(force=True, silent=True)\<close>: the body is decoded whatever its content
  type; a body that the decoder rejects gives \<^verbatim>\<open>None\<close> instead of an error. The request
  is represented by the text of its body.
\<close>

definition get_json :: "pystr \<Rightarrow> exn + json" where
  "get_json data =
     (case json_loads data of
        Inr v \<Rightarrow> Inr v
      | Inl (JSONDecodeError m d p) \<Rightarrow> Inr JNull
      | Inl e \<Rightarrow> Inl e)"

text \<open>
  \<^verbatim>\<open>client.chat.completions.create(model=..., temperature=..., messages=[...])\<close>. What the
  handler passes is a \<open>chat_request\<close>; a message is its role and its content. The call
  either raises or returns a response, of which the handler reads
  \<^verbatim>\<open>choices[0].message.content\<close>: a response is the list of the contents of its choices,
  each a \<^verbatim>\<open>str\<close> or \<^verbatim>\<open>None\<close>.
\<close>

record chat_request =
  model :: pystr
  temperature :: rat
  messages :: "(pystr \<times> pystr) list"

datatype chat_outcome =
    Raises exn
  | Completion "pystr option list"

text \<open>What a view returns: \<^verbatim>\<open>(jsonify(payload), status)\<close>.\<close>

record response =
  status :: nat
  payload :: json

section \<open>The handler \<^verbatim>\<open>grade\<close>\<close>

definition RUBRIC :: pystr where
  "RUBRIC =
     py ''You are a strict TOEFL Writing grader.'' @ [10] @
     py ''Rate on 5 dimensions from 1-5: task_response, organization, language_use, development, mechanics.'' @ [10] @
     py ''Compute overall_score (1-5) as the rounded average.'' @ [10] @
     py ''Return ONLY a compact JSON object with keys:'' @ [10] @
     py ''task_response, organization, language_use, development, mechanics, overall_score, concise_rationale.'' @ [10] @
     py ''concise_rationale must be 1-2 sentences, actionable.'' @ [10] @
     py ''Be consistent across essays of varying length; do not reward length alone.'' @ [10]"

definition required :: "pystr list" where
  "required =
     [py ''task_response'', py ''organization'', py ''language_use'',
      py ''development'', py ''mechanics'', py ''overall_score'', py ''concise_rationale'']"

text \<open>The three payloads with a fixed message, and the payload of the last \<^verbatim>\<open>except\<close>.\<close>

definition essay_required :: response where
  "essay_required =
     \<lparr>status = 400, payload = JObject [(py ''error'', JString (py ''Essay text required''))]\<rparr>"

definition non_json :: "pystr \<Rightarrow> response" where
  "non_json text =
     \<lparr>status = 502,
      payload = JObject [(py ''error'', JString (py ''Model returned non-JSON response'')),
                         (py ''raw'', JString text)]\<rparr>"

definition missing_keys :: "json \<Rightarrow> response" where
  "missing_keys result =
     \<lparr>status = 502,
      payload = JObject [(py ''error'', JString (py ''Missing keys in model output'')),
                         (py ''raw'', result)]\<rparr>"

definition server_error :: "exn \<Rightarrow> response" where
  "server_error e = \<lparr>status = 500, payload = JObject [(py ''error'', JString (str_exn e))]\<rparr>"

text \<open>
  Lines 82 and 83: \<^verbatim>\<open>data = request.get_json(force=True, silent=True) or {}\<close> and
  \<^verbatim>\<open>essay = (data.get("essay") or "").strip()\<close>.
\<close>

definition read_essay :: "pystr \<Rightarrow> exn + pystr" where
  "read_essay body =
     (case get_json body of
        Inl e \<Rightarrow> Inl e
      | Inr parsed \<Rightarrow>
          (case dict_get (py_or parsed (JObject [])) (py ''essay'') of
             Inl e \<Rightarrow> Inl e
           | Inr field \<Rightarrow> str_strip (py_or field (JString []))))"

text \<open>Lines 90 to 103: the prompt and the arguments of the call.\<close>

definition user_prompt :: "pystr \<Rightarrow> pystr" where
  "user_prompt essay =
     py ''Essay:'' @ [10] @
     [34, 34, 34] @ essay @ [34, 34, 34] @ [10, 10] @
     py ''Respond with ONLY JSON, no extra text.'' @ [10]"

definition completion_request :: "pystr \<Rightarrow> chat_request" where
  "completion_request essay =
     \<lparr>model = py ''gpt-4o-mini'',
      temperature = 2 / 10,
      messages = [(py ''system'', RUBRIC), (py ''user'', user_prompt essay)]\<rparr>"

text \<open>Line 105: \<^verbatim>\<open>text = (resp.choices[0].message.content or "").strip()\<close>.\<close>

definition reply_text :: "chat_outcome \<Rightarrow> exn + pystr" where
  "reply_text outcome =
     (case outcome of
        Raises e \<Rightarrow> Inl e
      | Completion [] \<Rightarrow> Inl IndexError
      | Completion (None # _) \<Rightarrow> Inr (strip [])
      | Completion (Some content # _) \<Rightarrow> Inr (strip content))"

text \<open>Lines 117 to 125: the check of the keys, and the successful answer.\<close>

definition check_required :: "json \<Rightarrow> exn + response" where
  "check_required result =
     (case dict_keys result of
        Inl e \<Rightarrow> Inl e
      | Inr keys \<Rightarrow>
          if set required \<subseteq> set keys then Inr \<lparr>status = 200, payload = result\<rparr>
          else Inr (missing_keys result))"

text \<open>
  Lines 108 to 115: the text is parsed, or the handler returns at once. The second
  \<^verbatim>\<open>json.loads\<close>, on the match of the pattern, stands in the \<^verbatim>\<open>except\<close> clause with no
  \<^verbatim>\<open>try\<close> of its own: what it raises leaves the clause.
\<close>

datatype parsed =
    Returned response  \<comment> \<open>the \<^verbatim>\<open>return\<close> of line 114\<close>
  | Parsed json  \<comment> \<open>the value bound to \<^verbatim>\<open>result\<close>\<close>

definition parse_reply :: "pystr \<Rightarrow> exn + parsed" where
  "parse_reply text =
     (case json_loads text of
        Inr result \<Rightarrow> Inr (Parsed result)
      | Inl (JSONDecodeError m d p) \<Rightarrow>
          (case re_search_braces text of
             None \<Rightarrow> Inr (Returned (non_json text))
           | Some matched \<Rightarrow>
               (case json_loads matched of
                  Inl e \<Rightarrow> Inl e
                | Inr result \<Rightarrow> Inr (Parsed result)))
      | Inl e \<Rightarrow> Inl e)"

text \<open>Lines 108 to 125.\<close>

definition resolve :: "pystr \<Rightarrow> exn + response" where
  "resolve text =
     (case parse_reply text of
        Inl e \<Rightarrow> Inl e
      | Inr (Returned r) \<Rightarrow> Inr r
      | Inr (Parsed result) \<Rightarrow> check_required result)"

text \<open>
  The body of the \<^verbatim>\<open>try\<close>, lines 82 to 125, together with the calls made to the completion
  API, in order. \<open>create\<close> is the behaviour of the API. The log lines are left out
  here: this is the body when every call to the logger returns. The last section of
  definitions, on the log lines, has the body with them.
\<close>

definition grade_try ::
  "(chat_request \<Rightarrow> chat_outcome) \<Rightarrow> pystr \<Rightarrow> (exn + response) \<times> chat_request list" where
  "grade_try create body =
     (case read_essay body of
        Inl e \<Rightarrow> (Inl e, [])
      | Inr essay \<Rightarrow>
          if essay = [] then (Inr essay_required, [])
          else
            (case reply_text (create (completion_request essay)) of
               Inl e \<Rightarrow> (Inl e, [completion_request essay])
             | Inr text \<Rightarrow> (resolve text, [completion_request essay])))"

text \<open>
  The whole view, again without its log lines: lines 127 to 129 turn an exception into
  the answer 500. Every member of \<open>exn\<close> is an instance of \<^verbatim>\<open>Exception\<close>, so the clause
  catches it.
\<close>

definition grade ::
  "(chat_request \<Rightarrow> chat_outcome) \<Rightarrow> pystr \<Rightarrow> response \<times> chat_request list" where
  "grade create body =
     (case grade_try create body of
        (Inl e, calls) \<Rightarrow> (server_error e, calls)
      | (Inr r, calls) \<Rightarrow> (r, calls))"

text \<open>An API that gives the same outcome to every call.\<close>

definition always :: "chat_outcome \<Rightarrow> chat_request \<Rightarrow> chat_outcome" where
  "always outcome request = outcome"

section \<open>The log lines and the last \<^verbatim>\<open>except\<close>\<close>

text \<open>
  \<open>grade\<close> is the view in a world where every call to the logger returns and nothing is
  raised that is not an instance of \<^verbatim>\<open>Exception\<close>. This section has the view with its log
  lines, in a world where a call can raise anything.
\<close>

text \<open>
  What a call can raise: an instance of \<^verbatim>\<open>Exception\<close>, or one of the exceptions that
  derive from \<^verbatim>\<open>BaseException\<close> only, which \<^verbatim>\<open>except Exception\<close> does not catch.
\<close>

datatype raised =
    Exception exn
  | KeyboardInterrupt
  | SystemExit

subsection \<open>\<^verbatim>\<open>ascii_safe_preview\<close>\<close>

text \<open>
  Lines 70 to 73. \<^verbatim>\<open>encode("ascii", "backslashreplace")\<close> writes a code point that is not
  ASCII as \<^verbatim>\<open>\xhh\<close>, \<^verbatim>\<open>\uhhhh\<close> or \<^verbatim>\<open>\Uhhhhhhhh\<close>, with lower-case digits.
\<close>

definition hexdigit :: "nat \<Rightarrow> nat" where
  "hexdigit d = (if d < 10 then 48 + d else 87 + d)"

fun hex :: "nat \<Rightarrow> nat \<Rightarrow> pystr" where
  "hex 0 c = []"
| "hex (Suc width) c = hex width (c div 16) @ [hexdigit (c mod 16)]"

definition backslashreplace :: "pystr \<Rightarrow> pystr" where
  "backslashreplace s =
     concat (map (\<lambda>c. if c < 128 then [c]
                       else if c < 256 then [92, 120] @ hex 2 c
                       else if c < 65536 then [92, 117] @ hex 4 c
                       else [92, 85] @ hex 8 c) s)"

definition ascii_safe_preview :: "pystr \<Rightarrow> pystr" where
  "ascii_safe_preview s =
     backslashreplace (take 120 s @ (if length s > 120 then py ''...'' else []))"

subsection \<open>\<^verbatim>\<open>SafeStreamHandler.emit\<close>\<close>

text \<open>
  The stream of the handler is \<^verbatim>\<open>sys.stderr\<close>: \<^verbatim>\<open>write\<close> and \<^verbatim>\<open>flush\<close> return, or raise.
\<close>

record stream =
  stream_write :: "pystr \<Rightarrow> raised option"
  stream_flush :: "raised option"

text \<open>
  Lines 25 to 30, on the text \<open>msg\<close> that lines 21 to 24 have made of the record. A
  \<^verbatim>\<open>UnicodeEncodeError\<close> of the first \<^verbatim>\<open>write\<close> is caught and the text is written again in
  ASCII. Unlike \<^verbatim>\<open>StreamHandler.emit\<close>, which it overrides, the method does not hand
  other exceptions to \<^verbatim>\<open>handleError\<close>: they leave \<^verbatim>\<open>emit\<close>, and with it the call to the
  logger.
\<close>

definition emit :: "stream \<Rightarrow> pystr \<Rightarrow> raised option" where
  "emit stderr msg =
     (case stream_write stderr (msg @ [10]) of
        None \<Rightarrow> stream_flush stderr
      | Some (Exception (UnicodeEncodeError m)) \<Rightarrow>
          (case stream_write stderr (backslashreplace msg @ [10]) of
             None \<Rightarrow> stream_flush stderr
           | Some x \<Rightarrow> Some x)
      | Some x \<Rightarrow> Some x)"

text \<open>
  The calls to the logger in \<^verbatim>\<open>grade\<close>, each with the arguments it passes for the
  placeholders of its message.
\<close>

datatype log_call =
    Empty_essay  \<comment> \<open>line 85\<close>
  | Received_essay nat pystr  \<comment> \<open>line 88: length and preview of the essay\<close>
  | Model_output pystr  \<comment> \<open>line 106: preview of the reply\<close>
  | Non_JSON pystr  \<comment> \<open>line 113: preview of the reply\<close>
  | Missing_keys "pystr list"  \<comment> \<open>line 122: the keys of the parsed object\<close>
  | Unexpected_error pystr  \<comment> \<open>line 128: preview of \<^verbatim>\<open>str(e)\<close>\<close>

text \<open>
  All six are at level \<^verbatim>\<open>INFO\<close> or above, so each record reaches the one handler of the
  root logger. \<open>formatted\<close> is the text the formatter makes of a record; it starts with
  the time of the call.
\<close>

definition safe_handler :: "stream \<Rightarrow> (log_call \<Rightarrow> pystr) \<Rightarrow> log_call \<Rightarrow> raised option" where
  "safe_handler stderr formatted call = emit stderr (formatted call)"

subsection \<open>The view with its log lines\<close>

text \<open>A statement that follows a call to the logger is reached only when the call returns.\<close>

definition after :: "raised option \<Rightarrow> raised + 'a \<Rightarrow> raised + 'a" where
  "after logged rest = (case logged of Some x \<Rightarrow> Inl x | None \<Rightarrow> rest)"

text \<open>Lines 117 to 125.\<close>

definition check_required_logged ::
  "(log_call \<Rightarrow> raised option) \<Rightarrow> json \<Rightarrow> raised + response" where
  "check_required_logged logger result =
     (case dict_keys result of
        Inl e \<Rightarrow> Inl (Exception e)
      | Inr keys \<Rightarrow>
          if set required \<subseteq> set keys then Inr \<lparr>status = 200, payload = result\<rparr>
          else after (logger (Missing_keys keys)) (Inr (missing_keys result)))"

text \<open>Lines 106 to 125.\<close>

definition resolve_logged :: "(log_call \<Rightarrow> raised option) \<Rightarrow> pystr \<Rightarrow> raised + response" where
  "resolve_logged logger text =
     after (logger (Model_output (ascii_safe_preview text)))
       (case parse_reply text of
          Inl e \<Rightarrow> Inl (Exception e)
        | Inr (Returned r) \<Rightarrow> after (logger (Non_JSON (ascii_safe_preview text))) (Inr r)
        | Inr (Parsed result) \<Rightarrow> check_required_logged logger result)"

text \<open>
  The body of the \<^verbatim>\<open>try\<close>, lines 82 to 125. \<open>logger\<close> is what a call to the logger does, and
  \<open>create\<close> what the call to the API does: it returns the contents of the choices, or
  raises.
\<close>

definition grade_logged_try ::
  "(log_call \<Rightarrow> raised option) \<Rightarrow> (chat_request \<Rightarrow> raised + pystr option list) \<Rightarrow> pystr
     \<Rightarrow> (raised + response) \<times> chat_request list" where
  "grade_logged_try logger create body =
     (case read_essay body of
        Inl e \<Rightarrow> (Inl (Exception e), [])
      | Inr essay \<Rightarrow>
          if essay = [] then (after (logger Empty_essay) (Inr essay_required), [])
          else
            (case logger (Received_essay (length essay) (ascii_safe_preview essay)) of
               Some x \<Rightarrow> (Inl x, [])
             | None \<Rightarrow>
                 (case create (completion_request essay) of
                    Inl x \<Rightarrow> (Inl x, [completion_request essay])
                  | Inr choices \<Rightarrow>
                      (case reply_text (Completion choices) of
                         Inl e \<Rightarrow> (Inl (Exception e), [completion_request essay])
                       | Inr text \<Rightarrow> (resolve_logged logger text, [completion_request essay])))))"

text \<open>
  The whole view. Lines 127 to 129 catch an instance of \<^verbatim>\<open>Exception\<close>, log it, and
  return the answer 500; the call to the logger stands in the \<^verbatim>\<open>except\<close> clause, so what
  it raises leaves the view. \<open>Inl\<close> is an exception that leaves the view.
\<close>

definition grade_logged ::
  "(log_call \<Rightarrow> raised option) \<Rightarrow> (chat_request \<Rightarrow> raised + pystr option list) \<Rightarrow> pystr
     \<Rightarrow> (raised + response) \<times> chat_request list" where
  "grade_logged logger create body =
     (case grade_logged_try logger create body of
        (Inr r, calls) \<Rightarrow> (Inr r, calls)
      | (Inl (Exception e), calls) \<Rightarrow>
          (after (logger (Unexpected_error (ascii_safe_preview (str_exn e)))) (Inr (server_error e)),
           calls)
      | (Inl x, calls) \<Rightarrow> (Inl x, calls))"

text \<open>
  A logger whose calls all return; an API that does the same at every call; and an API
  of the kind \<open>grade\<close> takes, seen as one of the kind \<open>grade_logged\<close> takes.
\<close>

definition silent :: "log_call \<Rightarrow> raised option" where
  "silent call = None"

definition raising :: "raised \<Rightarrow> chat_request \<Rightarrow> raised + pystr option list" where
  "raising x request = Inl x"

definition plain :: "(chat_request \<Rightarrow> chat_outcome) \<Rightarrow> chat_request \<Rightarrow> raised + pystr option list" where
  "plain create request =
     (case create request of
        Raises e \<Rightarrow> Inl (Exception e)
      | Completion choices \<Rightarrow> Inr choices)"

text \<open>A stream that is broken: every \<^verbatim>\<open>write\<close> raises the same \<^verbatim>\<open>OSError\<close>.\<close>

definition broken_pipe :: stream where
  "broken_pipe =
     \<lparr>stream_write = (\<lambda>text. Some (Exception (OSError (py ''[Errno 32] Broken pipe'')))),
      stream_flush = None\<rparr>"

section \<open>The pattern search\<close>

lemma upto_last_append:
  "c \<notin> set post \<Longrightarrow> upto_last c (xs @ c # post) = xs @ [c]"
  by (auto simp: upto_last_def dropWhile_append3)

text \<open>
  A text with a \<^verbatim>\<open>{\<close> that has no \<^verbatim>\<open>{\<close> before it, and a later \<^verbatim>\<open>}\<close> that has no \<^verbatim>\<open>}\<close> after
  it: the match is what lies between the two, braces included.
\<close>

lemma re_search_braces_found:
  assumes "lbrace \<notin> set pre" and "rbrace \<notin> set post"
  shows "re_search_braces (pre @ lbrace # mid @ rbrace # post) = Some (lbrace # mid @ [rbrace])"
proof -
  have "dropWhile (\<lambda>x. x \<noteq> lbrace) (pre @ lbrace # mid @ rbrace # post)
          = lbrace # mid @ rbrace # post"
    using assms(1) by (auto simp: dropWhile_append3)
  moreover have "upto_last rbrace ((lbrace # mid) @ rbrace # post) = (lbrace # mid) @ [rbrace]"
    using assms(2) by (rule upto_last_append)
  ultimately show ?thesis
    by (simp add: re_search_braces_def)
qed

text \<open>There is no match exactly when no \<^verbatim>\<open>{\<close> of the text is followed by a \<^verbatim>\<open>}\<close>.\<close>

lemma re_search_braces_None_iff:
  "re_search_braces text = None \<longleftrightarrow>
     \<not> (\<exists>pre mid post. text = pre @ lbrace # mid @ rbrace # post)"
proof
  assume none: "re_search_braces text = None"
  show "\<not> (\<exists>pre mid post. text = pre @ lbrace # mid @ rbrace # post)"
  proof
    assume "\<exists>pre mid post. text = pre @ lbrace # mid @ rbrace # post"
    then obtain pre mid post where t: "text = pre @ lbrace # mid @ rbrace # post" by blast
    have "dropWhile (\<lambda>x. x \<noteq> lbrace) text \<noteq> []" using t by simp
    moreover have "rbrace \<in> set (tl (dropWhile (\<lambda>x. x \<noteq> lbrace) text))"
    proof -
      obtain p1 p2 where "pre @ [lbrace] = p1 @ lbrace # p2" "lbrace \<notin> set p1"
        by (metis in_set_conv_decomp_first in_set_conv_decomp)
      then have "text = p1 @ lbrace # (p2 @ mid @ rbrace # post)" using t by simp
      then have "dropWhile (\<lambda>x. x \<noteq> lbrace) text = lbrace # (p2 @ mid @ rbrace # post)"
        using \<open>lbrace \<notin> set p1\<close> by (auto simp: dropWhile_append3)
      then show ?thesis by simp
    qed
    ultimately show False using none by (simp add: re_search_braces_def Let_def)
  qed
next
  assume no: "\<not> (\<exists>pre mid post. text = pre @ lbrace # mid @ rbrace # post)"
  show "re_search_braces text = None"
  proof (rule ccontr)
    assume "re_search_braces text \<noteq> None"
    then have ne: "dropWhile (\<lambda>x. x \<noteq> lbrace) text \<noteq> []"
      and r: "rbrace \<in> set (tl (dropWhile (\<lambda>x. x \<noteq> lbrace) text))"
      by (auto simp: re_search_braces_def Let_def split: if_splits)
    from ne obtain rest where d: "dropWhile (\<lambda>x. x \<noteq> lbrace) text = lbrace # rest"
      by (metis (mono_tags, lifting) dropWhile_eq_Cons_conv list.exhaust)
    from r d obtain mid post where "rest = mid @ rbrace # post"
      by (auto simp: in_set_conv_decomp)
    then have "text = takeWhile (\<lambda>x. x \<noteq> lbrace) text @ lbrace # mid @ rbrace # post"
      using d by (metis takeWhile_dropWhile_id)
    then show False using no by blast
  qed
qed

section \<open>The budget of the scanner\<close>

text \<open>
  Every value the scanner reads takes at least one character, so the budget that
  \<open>json_loads\<close> gives is never used up: the decoder always returns a value or a
  \<^verbatim>\<open>JSONDecodeError\<close>.
\<close>

lemma skip_ws_le: "length (skip_ws s) \<le> length s"
  by (simp add: skip_ws_def length_dropWhile_le)

lemma skip_ws_Cons: "skip_ws s = d # ds \<Longrightarrow> length ds < length s"
  using skip_ws_le[of s] by simp

lemma scanstring_shorter:
  "scanstring b acc s = Inr (str, r) \<Longrightarrow> length r < length s"
proof (induction b acc s rule: scanstring.induct)
  case (1 b acc)
  then show ?case by simp
next
  case (2 b acc c s)
  show ?case
  proof (cases "c = 34")
    case True
    with "2.prems" show ?thesis by simp
  next
    case False
    note not_quote = this
    show ?thesis
    proof (cases "c = 92")
      case False
      with not_quote "2.prems" "2.IH"(5) show ?thesis
        by (auto split: if_splits)
    next
      case True
      show ?thesis
      proof (cases s)
        case Nil
        with True not_quote "2.prems" show ?thesis by simp
      next
        case (Cons e r')
        show ?thesis
          using True not_quote "2.prems" Cons "2.IH"(1-4)
          by (auto simp: Let_def split: if_splits option.splits) force+
      qed
    qed
  qed
qed

lemma scanstring_not_exhausted: "scanstring b acc s \<noteq> Inl Exhausted"
  by (induction b acc s rule: scanstring.induct)
     (auto simp: Let_def split: list.splits option.splits)

lemma match_number_not_exhausted: "match_number s \<noteq> Inl Exhausted"
  by (simp add: match_number_def Let_def)

text \<open>A number that is read takes at least one digit.\<close>

lemma match_number_shorter:
  assumes "match_number s = Inr (v, r)"
  shows "length r < length s"
proof -
  define t where "t = (if s \<noteq> [] \<and> hd s = 45 then tl s else s)"
  define ip where "ip = (if t \<noteq> [] \<and> hd t = 48 then [48] else takeWhile is_digit t)"
  define u where "u = drop (length ip) t"
  define fp where "fp = (case u of
                  d # f # _ \<Rightarrow> if d = 46 \<and> is_digit f then d # takeWhile is_digit (tl u) else []
                | _ \<Rightarrow> [])"
  define w where "w = drop (length fp) u"
  define ep where "ep = (case w of
                  e # w' \<Rightarrow>
                    if e = 101 \<or> e = 69 then
                      (let sg = (case w' of
                                   g # _ # _ \<Rightarrow> if g = 45 \<or> g = 43 then [g] else []
                                 | _ \<Rightarrow> []);
                           ds = takeWhile is_digit (drop (length sg) w')
                       in if ds = [] then [] else e # sg @ ds)
                    else []
                | [] \<Rightarrow> [])"
  have shape: "match_number s =
      (if ip = [] then Inl (Fail msg_value (length s))
       else if fp = [] \<and> ep = []
         then Inr (JInt (if s \<noteq> [] \<and> hd s = 45 then - digits_value ip else digits_value ip),
                   drop (length ep) w)
         else Inr (JFloat ((if s \<noteq> [] \<and> hd s = 45 then [45] else []) @ ip @ fp @ ep),
                   drop (length ep) w))"
    unfolding match_number_def ep_def w_def fp_def u_def ip_def t_def
    by (simp only: Let_def)
  have t_le: "length t \<le> length s"
    by (simp add: t_def)
  have ip_le: "length ip \<le> length t"
    by (cases t) (simp_all add: ip_def length_takeWhile_le)
  have ne: "ip \<noteq> []" and r: "r = drop (length ep) w"
    using assms unfolding shape by (simp_all split: if_splits)
  have "length r \<le> length t - length ip"
    unfolding r w_def u_def by simp
  moreover have "Suc 0 \<le> length ip" using ne by (cases ip) simp_all
  ultimately show ?thesis using t_le ip_le by linarith
qed

text \<open>What is left after a value, a member list or an element list is shorter than what was there.\<close>

lemma scan_shorter:
  "scan_once n s = Inr (v, r) \<Longrightarrow> length r < length s"
  "object_members n s pairs = Inr (v, r) \<Longrightarrow> length r < length s"
  "array_elements n s acc = Inr (v, r) \<Longrightarrow> length r < length s"
proof (induction n s and n s pairs and n s acc arbitrary: v r and v r and v r
       rule: scan_once_object_members_array_elements.induct)
  case (1 s)
  then show ?case by simp
next
  case (2 n)
  then show ?case by simp
next
  case (3 n c cs)
  show ?case
  proof (cases "c = 34")
    case True
    with "3.prems" show ?thesis
      by (auto split: sum.splits dest: scanstring_shorter)
  next
    case not_quote: False
    show ?thesis
    proof (cases "c = 123")
      case True
      show ?thesis
      proof (cases "skip_ws cs")
        case Nil
        with True not_quote "3.prems" "3.IH"(1)[OF not_quote True Nil] show ?thesis
          by simp
      next
        case (Cons d ds)
        have ds: "length ds < length cs" using Cons by (rule skip_ws_Cons)
        show ?thesis
        proof (cases "d = 125")
          case True
          with \<open>c = 123\<close> not_quote Cons ds "3.prems" show ?thesis by auto
        next
          case False
          have "object_members n (d # ds) [] = Inr (v, r)"
            using \<open>c = 123\<close> not_quote Cons False "3.prems" by simp
          from "3.IH"(2)[OF not_quote \<open>c = 123\<close> Cons False this] ds show ?thesis by simp
        qed
      qed
    next
      case not_brace: False
      show ?thesis
      proof (cases "c = 91")
        case True
        show ?thesis
        proof (cases "skip_ws cs")
          case Nil
          with True not_brace not_quote "3.prems" "3.IH"(3)[OF not_quote not_brace True Nil]
          show ?thesis by simp
        next
          case (Cons d ds)
          have ds: "length ds < length cs" using Cons by (rule skip_ws_Cons)
          show ?thesis
          proof (cases "d = 93")
            case True
            with \<open>c = 91\<close> not_brace not_quote Cons ds "3.prems" show ?thesis by auto
          next
            case False
            have "array_elements n (d # ds) [] = Inr (v, r)"
              using \<open>c = 91\<close> not_brace not_quote Cons False "3.prems" by simp
            from "3.IH"(4)[OF not_quote not_brace \<open>c = 91\<close> Cons False this] ds
            show ?thesis by simp
          qed
        qed
      next
        case False
        with not_brace not_quote "3.prems" show ?thesis
          by (auto split: if_splits dest: match_number_shorter)
      qed
    qed
  qed
next
  case (4 s pairs)
  then show ?case by simp
next
  case (5 n pairs)
  then show ?case by simp
next
  case (6 n c cs pairs)
  from "6.prems" have quote: "c = 34" by (simp split: if_splits)
  from "6.prems" quote obtain key s2 where
    str: "scanstring (Suc (length cs)) [] cs = Inr (key, s2)"
    by (auto split: sum.splits)
  have s2: "length s2 < length cs" using str by (rule scanstring_shorter)
  from "6.prems" quote str obtain d s3 where
    colon: "skip_ws s2 = d # s3" by (auto split: list.splits)
  have s3: "length s3 < length s2" using colon by (rule skip_ws_Cons)
  from "6.prems" quote str colon have d: "d = 58" by (auto split: if_splits)
  from "6.prems" quote str colon d obtain w s5 where
    val: "scan_once n (skip_ws s3) = Inr (w, s5)" by (auto split: sum.splits)
  have "\<not> c \<noteq> 34" using quote by simp
  note ih1 = "6.IH"(1)[OF this str refl colon _ val]
  have s5: "length s5 < length (skip_ws s3)"
    using ih1 d by simp
  from "6.prems" quote str colon d val obtain x s6 where
    sep: "skip_ws s5 = x # s6" by (auto split: list.splits)
  have s6: "length s6 < length s5" using sep by (rule skip_ws_Cons)
  have chain: "length s6 < length cs"
    using s6 s5 skip_ws_le[of s3] s3 s2 by simp
  show ?case
  proof (cases "x = 125")
    case True
    with "6.prems" quote str colon d val sep have "r = s6" by simp
    with chain show ?thesis by simp
  next
    case False
    with "6.prems" quote str colon d val sep have comma: "x = 44"
      by (auto split: if_splits)
    with "6.prems" quote str colon d val sep False have
      rest: "object_members n (skip_ws s6) (dict_set key w pairs) = Inr (v, r)" by simp
    have "length r < length (skip_ws s6)"
      using "6.IH"(2)[OF \<open>\<not> c \<noteq> 34\<close> str refl colon _ val refl sep False _ rest] d comma
      by simp
    with chain skip_ws_le[of s6] show ?thesis by simp
  qed
next
  case (7 s acc)
  then show ?case by simp
next
  case (8 n s acc)
  from "8.prems" obtain w s1 where val: "scan_once n s = Inr (w, s1)"
    by (auto split: sum.splits)
  have s1: "length s1 < length s" using "8.IH"(1)[OF val] .
  from "8.prems" val obtain x s2 where sep: "skip_ws s1 = x # s2"
    by (auto split: list.splits)
  have s2: "length s2 < length s1" using sep by (rule skip_ws_Cons)
  show ?case
  proof (cases "x = 93")
    case True
    with "8.prems" val sep have "r = s2" by simp
    with s1 s2 show ?thesis by simp
  next
    case False
    with "8.prems" val sep have comma: "x = 44" by (auto split: if_splits)
    with "8.prems" val sep False have
      rest: "array_elements n (skip_ws s2) (acc @ [w]) = Inr (v, r)" by simp
    have "length r < length (skip_ws s2)"
      using "8.IH"(2)[OF val refl sep False _ rest] comma by simp
    with s1 s2 skip_ws_le[of s2] show ?thesis by simp
  qed
qed

text \<open>
  A budget of twice the length and one more is enough for a value, and of twice the
  length and two more for the members of an object and the elements of an array.
\<close>

lemma scan_fuel:
  "2 * length s + 1 \<le> n \<Longrightarrow> scan_once n s \<noteq> Inl Exhausted"
  "2 * length s + 2 \<le> n \<Longrightarrow> object_members n s pairs \<noteq> Inl Exhausted"
  "2 * length s + 2 \<le> n \<Longrightarrow> array_elements n s acc \<noteq> Inl Exhausted"
proof (induction n s and n s pairs and n s acc
       rule: scan_once_object_members_array_elements.induct)
  case (1 s)
  then show ?case by simp
next
  case (2 n)
  then show ?case by simp
next
  case (3 n c cs)
  have budget: "2 * length cs + 2 \<le> n" using "3.prems" by simp
  show ?case
  proof (cases "c = 34")
    case True
    then show ?thesis
      using scanstring_not_exhausted[of "Suc (length cs)" "[]" cs]
      by (auto split: sum.splits)
  next
    case not_quote: False
    show ?thesis
    proof (cases "c = 123")
      case True
      show ?thesis
      proof (cases "skip_ws cs")
        case Nil
        have "object_members n [] [] \<noteq> Inl Exhausted"
          using "3.IH"(1)[OF not_quote True Nil] budget by simp
        with True not_quote Nil show ?thesis by simp
      next
        case (Cons d ds)
        have ds: "length ds < length cs" using Cons by (rule skip_ws_Cons)
        show ?thesis
        proof (cases "d = 125")
          case True
          with \<open>c = 123\<close> not_quote Cons show ?thesis by simp
        next
          case False
          have "object_members n (d # ds) [] \<noteq> Inl Exhausted"
            using "3.IH"(2)[OF not_quote \<open>c = 123\<close> Cons False] budget ds by simp
          with \<open>c = 123\<close> not_quote Cons False show ?thesis by simp
        qed
      qed
    next
      case not_brace: False
      show ?thesis
      proof (cases "c = 91")
        case True
        show ?thesis
        proof (cases "skip_ws cs")
          case Nil
          have "array_elements n [] [] \<noteq> Inl Exhausted"
            using "3.IH"(3)[OF not_quote not_brace True Nil] budget by simp
          with True not_brace not_quote Nil show ?thesis by simp
        next
          case (Cons d ds)
          have ds: "length ds < length cs" using Cons by (rule skip_ws_Cons)
          show ?thesis
          proof (cases "d = 93")
            case True
            with \<open>c = 91\<close> not_brace not_quote Cons show ?thesis by simp
          next
            case False
            have "array_elements n (d # ds) [] \<noteq> Inl Exhausted"
              using "3.IH"(4)[OF not_quote not_brace \<open>c = 91\<close> Cons False] budget ds by simp
            with \<open>c = 91\<close> not_brace not_quote Cons False show ?thesis by simp
          qed
        qed
      next
        case False
        with not_brace not_quote show ?thesis
          using match_number_not_exhausted[of "c # cs"] by simp
      qed
    qed
  qed
next
  case (4 s pairs)
  then show ?case by simp
next
  case (5 n pairs)
  then show ?case by simp
next
  case (6 n c cs pairs)
  have budget: "2 * length cs + 3 \<le> n" using "6.prems" by simp
  show ?case
  proof (cases "c = 34")
    case False
    then show ?thesis by simp
  next
    case quote: True
    then have q: "\<not> c \<noteq> 34" by simp
    show ?thesis
    proof (cases "scanstring (Suc (length cs)) [] cs")
      case (Inl e)
      with quote scanstring_not_exhausted[of "Suc (length cs)" "[]" cs] show ?thesis by simp
    next
      case (Inr res)
      obtain key s2 where res: "res = (key, s2)" by (cases res)
      note str = Inr[unfolded res]
      have s2: "length s2 < length cs" using str by (rule scanstring_shorter)
      show ?thesis
      proof (cases "skip_ws s2")
        case Nil
        with quote str show ?thesis by simp
      next
        case colon: (Cons d s3)
        have s3: "length s3 < length s2" using colon by (rule skip_ws_Cons)
        show ?thesis
        proof (cases "d = 58")
          case False
          with quote str colon show ?thesis by simp
        next
          case d: True
          then have nd: "\<not> d \<noteq> 58" by simp
          have fuel1: "scan_once n (skip_ws s3) \<noteq> Inl Exhausted"
            using "6.IH"(1)[OF q str refl colon nd] budget s3 s2 skip_ws_le[of s3] by simp
          show ?thesis
          proof (cases "scan_once n (skip_ws s3)")
            case (Inl e)
            with fuel1 quote str colon d show ?thesis by simp
          next
            case (Inr res2)
            obtain w s5 where res2: "res2 = (w, s5)" by (cases res2)
            note val = Inr[unfolded res2]
            have s5: "length s5 < length (skip_ws s3)" using val by (rule scan_shorter(1))
            show ?thesis
            proof (cases "skip_ws s5")
              case Nil
              with quote str colon d val show ?thesis by simp
            next
              case sep: (Cons x s6)
              have s6: "length s6 < length s5" using sep by (rule skip_ws_Cons)
              show ?thesis
              proof (cases "x = 125")
                case True
                with quote str colon d val sep show ?thesis by simp
              next
                case not_close: False
                show ?thesis
                proof (cases "x = 44")
                  case False
                  with quote str colon d val sep not_close show ?thesis by simp
                next
                  case True
                  then have nx: "\<not> x \<noteq> 44" by simp
                  have "object_members n (skip_ws s6) (dict_set key w pairs) \<noteq> Inl Exhausted"
                    using "6.IH"(2)[OF q str refl colon nd val refl sep not_close nx]
                      budget s6 s5 s3 s2 skip_ws_le[of s3] skip_ws_le[of s6] by simp
                  with quote str colon d val sep not_close True show ?thesis by simp
                qed
              qed
            qed
          qed
        qed
      qed
    qed
  qed
next
  case (7 s acc)
  then show ?case by simp
next
  case (8 n s acc)
  have budget: "2 * length s + 1 \<le> n" using "8.prems" by simp
  have fuel1: "scan_once n s \<noteq> Inl Exhausted" using "8.IH"(1) budget by simp
  show ?case
  proof (cases "scan_once n s")
    case (Inl e)
    with fuel1 show ?thesis by simp
  next
    case (Inr res)
    obtain w s1 where res: "res = (w, s1)" by (cases res)
    note val = Inr[unfolded res]
    have s1: "length s1 < length s" using val by (rule scan_shorter(1))
    show ?thesis
    proof (cases "skip_ws s1")
      case Nil
      with val show ?thesis by simp
    next
      case sep: (Cons x s2)
      have s2: "length s2 < length s1" using sep by (rule skip_ws_Cons)
      show ?thesis
      proof (cases "x = 93")
        case True
        with val sep show ?thesis by simp
      next
        case not_close: False
        show ?thesis
        proof (cases "x = 44")
          case False
          with val sep not_close show ?thesis by simp
        next
          case True
          then have nx: "\<not> x \<noteq> 44" by simp
          have "array_elements n (skip_ws s2) (acc @ [w]) \<noteq> Inl Exhausted"
            using "8.IH"(2)[OF val refl sep not_close nx] budget s1 s2 skip_ws_le[of s2]
            by simp
          with val sep not_close True show ?thesis by simp
        qed
      qed
    qed
  qed
qed

lemma json_loads_no_RecursionError: "json_loads doc \<noteq> Inl RecursionError"
proof -
  have "2 * length (skip_ws doc) + 1 \<le> 2 * length doc + 2"
    using skip_ws_le[of doc] by simp
  then have "scan_once (2 * length doc + 2) (skip_ws doc) \<noteq> Inl Exhausted"
    by (rule scan_fuel(1))
  then show ?thesis
    by (auto simp: json_loads_def split: sum.splits scan_error.splits list.splits)
qed

section \<open>Running the model on a given text\<close>

text \<open>
  The scanner recurses on its budget, which \<open>json_loads\<close> gives as a numeral. These are
  its equations for a budget written as a numeral; with the definitions collected in
  \<open>run\<close> the simplifier computes the answer of the handler to a given request.
\<close>

lemmas scan_once_numeral =
  scan_once.simps(2,3)[where n = "pred_numeral k" for k, unfolded numeral_eq_Suc[symmetric]]

lemmas object_members_numeral =
  object_members.simps(2,3)[where n = "pred_numeral k" for k, unfolded numeral_eq_Suc[symmetric]]

lemmas array_elements_numeral =
  array_elements.simps(2)[where n = "pred_numeral k" for k, unfolded numeral_eq_Suc[symmetric]]

lemmas run =
  py_def strip_def isspace_def lbrace_def rbrace_def upto_last_def re_search_braces_def
  is_json_ws_def skip_ws_def is_digit_def hexval_def escape_char_def digits_value_def
  match_number_def starts_with_def json_loads_def Let_def
  scan_once_numeral object_members_numeral array_elements_numeral
  float_is_zero_def py_or_def get_json_def read_essay_def reply_text_def always_def
  required_def check_required_def parse_reply_def resolve_def grade_try_def grade_def

text \<open>The same for the view with its log lines.\<close>

lemmas run_logged =
  hexdigit_def backslashreplace_def ascii_safe_preview_def emit_def safe_handler_def after_def
  check_required_logged_def resolve_logged_def grade_logged_try_def grade_logged_def
  silent_def raising_def plain_def broken_pipe_def

section \<open>What the handler answers\<close>

text \<open>
  Once the essay is there and the API has answered, the view returns what lines 108 to
  125 make of the trimmed reply, after the one call it made.
\<close>

lemma grade_after_call:
  assumes "read_essay body = Inr essay" and "essay \<noteq> []"
    and "reply_text (create (completion_request essay)) = Inr text"
  shows "grade create body =
           ((case resolve text of Inl e \<Rightarrow> server_error e | Inr r \<Rightarrow> r),
            [completion_request essay])"
  using assms by (simp add: grade_def grade_try_def split: sum.splits)

lemma read_essay_string:
  assumes "get_json body = Inr (JObject kvs)"
    and "map_of kvs (py ''essay'') = Some (JString e)"
  shows "read_essay body = Inr (strip e)"
proof -
  have "kvs \<noteq> []" using assms(2) by auto
  then show ?thesis
    using assms by (simp add: read_essay_def py_or_def strip_def)
qed

lemma at_most_one_call: "length (snd (grade create body)) \<le> 1"
  by (simp add: grade_def grade_try_def split: sum.splits prod.splits)

lemma check_required_object:
  "check_required (JObject kvs) =
     Inr (if set required \<subseteq> fst ` set kvs then \<lparr>status = 200, payload = JObject kvs\<rparr>
          else missing_keys (JObject kvs))"
  by (simp add: check_required_def)

lemma check_required_not_object:
  assumes "\<forall>kvs. v \<noteq> JObject kvs"
  shows "check_required v = Inl (AttributeError (type_name v) (py ''keys''))"
  using assms by (cases v) (simp_all add: check_required_def)

subsection \<open>The request\<close>

text \<open>
  Three kinds of request get the answer 400 and cause no call: a body the decoder
  rejects, an object without the key \<^verbatim>\<open>essay\<close>, and an essay that is blank once trimmed.
\<close>

lemma grade_unparseable_body:
  assumes "json_loads body = Inl (JSONDecodeError m d p)"
  shows "grade create body = (essay_required, [])"
  using assms by (simp add: grade_def grade_try_def read_essay_def get_json_def py_or_def strip_def)

lemma grade_essay_absent:
  assumes "get_json body = Inr (JObject kvs)" and "map_of kvs (py ''essay'') = None"
  shows "grade create body = (essay_required, [])"
  using assms
  by (cases kvs) (simp_all add: grade_def grade_try_def read_essay_def py_or_def strip_def)

lemma grade_essay_blank:
  assumes "get_json body = Inr (JObject kvs)"
    and "map_of kvs (py ''essay'') = Some (JString e)" and "strip e = []"
  shows "grade create body = (essay_required, [])"
  using read_essay_string[OF assms(1,2)] assms(3) by (simp add: grade_def grade_try_def)

text \<open>
  C1. The claim: a request whose essay field is absent, whose body does not have the
  expected shape, or whose essay is blank once trimmed, gets the answer 400 with the
  message \<^verbatim>\<open>Essay text required\<close>, and no call is made. The handler does not do this for
  every such request. A body that is JSON but not an object, here the array \<^verbatim>\<open>[1]\<close>, has
  no essay field and not the expected shape; \<^verbatim>\<open>data.get\<close> raises on it, and the answer is
  500 with the text of the \<^verbatim>\<open>AttributeError\<close>. No call is made.
\<close>

theorem array_body_answers_500:
  \<open>grade create (py ''[1]'') =
     (\<lparr>status = 500,
       payload = JObject [(py ''error'',
         JString ([39] @ py ''list'' @ [39] @ py '' object has no attribute '' @ [39]
                  @ py ''get'' @ [39]))]\<rparr>,
      [])\<close>
  by (simp add: run server_error_def)

text \<open>The same happens when the essay is there but is not a string.\<close>

lemma number_essay_answers_500:
  \<open>grade create (py ''{"essay": 5}'') =
     (server_error (AttributeError (py ''int'') (py ''strip'')), [])\<close>
  by (simp add: run)

subsection \<open>The call\<close>

text \<open>
  C8. For an essay that is not blank once trimmed, the handler makes exactly one call:
  the model \<^verbatim>\<open>gpt-4o-mini\<close>, the temperature 0.2, and two messages, the rubric as
  \<^verbatim>\<open>system\<close> and as \<^verbatim>\<open>user\<close> the essay between triple quotes, followed by the request to
  answer with JSON only. What stands between the quotes is the essay as the handler
  holds it, trimmed and otherwise character for character.
\<close>

theorem one_call_with_fixed_prompt:
  assumes "get_json body = Inr (JObject kvs)"
    and "map_of kvs (py ''essay'') = Some (JString e)"
    and "strip e \<noteq> []"
  shows "snd (grade create body) =
           [\<lparr>model = py ''gpt-4o-mini'',
             temperature = 2 / 10,
             messages =
               [(py ''system'', RUBRIC),
                (py ''user'',
                 py ''Essay:'' @ [10] @ [34, 34, 34] @ strip e @ [34, 34, 34] @ [10, 10] @
                 py ''Respond with ONLY JSON, no extra text.'' @ [10])]\<rparr>]"
  using read_essay_string[OF assms(1,2)] assms(3)
  by (simp add: grade_def grade_try_def completion_request_def user_prompt_def
        split: sum.splits)

theorem one_call_with_fixed_prompt_witness:
  \<open>snd (grade (always (Raises (APIError (py ''Connection error.''))))
          (py ''{"essay": "  The weather is nice. "}'')) =
     [\<lparr>model = py ''gpt-4o-mini'',
       temperature = 2 / 10,
       messages =
         [(py ''system'', RUBRIC),
          (py ''user'',
           py ''Essay:'' @ [10] @ [34, 34, 34] @ py ''The weather is nice.'' @ [34, 34, 34]
           @ [10, 10] @ py ''Respond with ONLY JSON, no extra text.'' @ [10])]\<rparr>]\<close>
proof -
  have parsed: \<open>get_json (py ''{"essay": "  The weather is nice. "}'') =
      Inr (JObject [(py ''essay'', JString (py ''  The weather is nice. ''))])\<close>
    by (simp add: run)
  have field: "map_of [(py ''essay'', JString (py ''  The weather is nice. ''))] (py ''essay'')
      = Some (JString (py ''  The weather is nice. ''))"
    by simp
  have trimmed: "strip (py ''  The weather is nice. '') = py ''The weather is nice.''"
    by (simp add: run)
  then have "strip (py ''  The weather is nice. '') \<noteq> []"
    by (simp add: py_def)
  from one_call_with_fixed_prompt[OF parsed field this] show ?thesis
    by (simp only: trimmed)
qed

subsection \<open>A reply that is JSON\<close>

text \<open>
  C2. When the trimmed reply is accepted by \<^verbatim>\<open>json.loads\<close> and is an object with all seven
  required keys, the handler answers 200 with that object as it was parsed: the payload
  is the very value the decoder returned, whatever the types and sizes of its entries.
\<close>

theorem complete_object_passes_through:
  assumes "read_essay body = Inr essay" and "essay \<noteq> []"
    and "create (completion_request essay) = Completion (Some content # others)"
    and "json_loads (strip content) = Inr (JObject kvs)"
    and "set required \<subseteq> fst ` set kvs"
  shows "grade create body =
           (\<lparr>status = 200, payload = JObject kvs\<rparr>, [completion_request essay])"
proof -
  have "reply_text (create (completion_request essay)) = Inr (strip content)"
    using assms(3) by (simp add: reply_text_def)
  moreover have "resolve (strip content) = Inr \<lparr>status = 200, payload = JObject kvs\<rparr>"
    using assms(4,5) by (simp add: resolve_def parse_reply_def check_required_object)
  ultimately show ?thesis
    using grade_after_call[OF assms(1,2)] by simp
qed

text \<open>
  The scenario of the specification: the essay \<^verbatim>\<open>The weather is nice.\<close> and a reply with
  the seven keys, here followed by a line break that the handler trims.
\<close>

theorem complete_object_passes_through_witness:
  \<open>grade
     (always (Completion [Some (py ''{"task_response":3,"organization":3,"language_use":3,"development":3,"mechanics":3,"overall_score":3,"concise_rationale":"Too short; needs development."}'' @ [10])]))
     (py ''{"essay": "The weather is nice."}'') =
   (\<lparr>status = 200,
     payload = JObject
       [(py ''task_response'', JInt 3), (py ''organization'', JInt 3),
        (py ''language_use'', JInt 3), (py ''development'', JInt 3),
        (py ''mechanics'', JInt 3), (py ''overall_score'', JInt 3),
        (py ''concise_rationale'', JString (py ''Too short; needs development.''))]\<rparr>,
    [completion_request (py ''The weather is nice.'')])\<close>
proof -
  have essay: \<open>read_essay (py ''{"essay": "The weather is nice."}'') =
      Inr (py ''The weather is nice.'')\<close>
    by (simp add: run)
  have filled: "py ''The weather is nice.'' \<noteq> []"
    by (simp add: py_def)
  have parsed: \<open>json_loads (strip (py ''{"task_response":3,"organization":3,"language_use":3,"development":3,"mechanics":3,"overall_score":3,"concise_rationale":"Too short; needs development."}'' @ [10])) =
      Inr (JObject
       [(py ''task_response'', JInt 3), (py ''organization'', JInt 3),
        (py ''language_use'', JInt 3), (py ''development'', JInt 3),
        (py ''mechanics'', JInt 3), (py ''overall_score'', JInt 3),
        (py ''concise_rationale'', JString (py ''Too short; needs development.''))])\<close>
    by (simp add: run)
  have keys: "set required \<subseteq> fst ` set
       [(py ''task_response'', JInt 3), (py ''organization'', JInt 3),
        (py ''language_use'', JInt 3), (py ''development'', JInt 3),
        (py ''mechanics'', JInt 3), (py ''overall_score'', JInt 3),
        (py ''concise_rationale'', JString (py ''Too short; needs development.''))]"
    by (simp add: required_def)
  show ?thesis
    by (rule complete_object_passes_through[OF essay filled _ parsed keys])
       (simp add: always_def)
qed

text \<open>
  C10. The check of the keys asks only that the seven required keys are among the keys
  of the parsed object, on whichever of the two paths it was parsed. An object that has
  them is answered with 200 and is the payload as a whole, with every other entry it has.
\<close>

theorem extra_keys_are_kept:
  assumes "read_essay body = Inr essay" and "essay \<noteq> []"
    and "reply_text (create (completion_request essay)) = Inr text"
    and "parse_reply text = Inr (Parsed (JObject kvs))"
    and "set required \<subseteq> fst ` set kvs"
  shows "grade create body =
           (\<lparr>status = 200, payload = JObject kvs\<rparr>, [completion_request essay])"
proof -
  have "resolve text = Inr \<lparr>status = 200, payload = JObject kvs\<rparr>"
    using assms(4,5) by (simp add: resolve_def check_required_object)
  then show ?thesis
    using grade_after_call[where create = create, OF assms(1,2,3)] by simp
qed

theorem extra_keys_are_kept_witness:
  \<open>grade
     (always (Completion [Some (py ''{"note":[1,2],"task_response":5,"organization":4,"language_use":4,"development":3,"mechanics":5,"overall_score":4,"concise_rationale":"Good.","words":312}'')]))
     (py ''{"essay": "An essay."}'') =
   (\<lparr>status = 200,
     payload = JObject
       [(py ''note'', JArray [JInt 1, JInt 2]),
        (py ''task_response'', JInt 5), (py ''organization'', JInt 4),
        (py ''language_use'', JInt 4), (py ''development'', JInt 3),
        (py ''mechanics'', JInt 5), (py ''overall_score'', JInt 4),
        (py ''concise_rationale'', JString (py ''Good.'')),
        (py ''words'', JInt 312)]\<rparr>,
    [completion_request (py ''An essay.'')])\<close>
proof -
  have essay: \<open>read_essay (py ''{"essay": "An essay."}'') = Inr (py ''An essay.'')\<close>
    by (simp add: run)
  have filled: "py ''An essay.'' \<noteq> []"
    by (simp add: py_def)
  have parsed: \<open>parse_reply (py ''{"note":[1,2],"task_response":5,"organization":4,"language_use":4,"development":3,"mechanics":5,"overall_score":4,"concise_rationale":"Good.","words":312}'') =
      Inr (Parsed (JObject
       [(py ''note'', JArray [JInt 1, JInt 2]),
        (py ''task_response'', JInt 5), (py ''organization'', JInt 4),
        (py ''language_use'', JInt 4), (py ''development'', JInt 3),
        (py ''mechanics'', JInt 5), (py ''overall_score'', JInt 4),
        (py ''concise_rationale'', JString (py ''Good.'')),
        (py ''words'', JInt 312)]))\<close>
    by (simp add: run)
  have keys: "set required \<subseteq> fst ` set
       [(py ''note'', JArray [JInt 1, JInt 2]),
        (py ''task_response'', JInt 5), (py ''organization'', JInt 4),
        (py ''language_use'', JInt 4), (py ''development'', JInt 3),
        (py ''mechanics'', JInt 5), (py ''overall_score'', JInt 4),
        (py ''concise_rationale'', JString (py ''Good.'')),
        (py ''words'', JInt 312)]"
    by (simp add: required_def)
  show ?thesis
    by (rule extra_keys_are_kept[OF essay filled _ parsed keys])
       (simp add: always_def reply_text_def strip_def isspace_def py_def)
qed

text \<open>
  C9. When the trimmed reply is accepted by \<^verbatim>\<open>json.loads\<close> and is not an object (a number,
  a string, an array, a truth value or \<^verbatim>\<open>null\<close>), \<^verbatim>\<open>result.keys()\<close> raises. The outer
  \<^verbatim>\<open>except\<close> catches it, and the answer is 500 with the text of the \<^verbatim>\<open>AttributeError\<close>,
  not one of the two answers 502.
\<close>

theorem non_object_reply_answers_500:
  assumes "read_essay body = Inr essay" and "essay \<noteq> []"
    and "reply_text (create (completion_request essay)) = Inr text"
    and "json_loads text = Inr v"
    and "\<forall>kvs. v \<noteq> JObject kvs"
  shows "grade create body =
           (\<lparr>status = 500,
             payload = JObject [(py ''error'',
               JString ([39] @ type_name v @ [39] @ py '' object has no attribute '' @ [39]
                        @ py ''keys'' @ [39]))]\<rparr>,
            [completion_request essay])"
proof -
  have "resolve text = Inl (AttributeError (type_name v) (py ''keys''))"
    using assms(4) check_required_not_object[OF assms(5)]
    by (simp add: resolve_def parse_reply_def)
  then show ?thesis
    using grade_after_call[where create = create, OF assms(1,2,3)] by (simp add: server_error_def)
qed

theorem non_object_reply_answers_500_witness:
  \<open>grade (always (Completion [Some (py '' [3, 4]'')])) (py ''{"essay": "hi"}'') =
     (\<lparr>status = 500,
       payload = JObject [(py ''error'',
         JString ([39] @ py ''list'' @ [39] @ py '' object has no attribute '' @ [39]
                  @ py ''keys'' @ [39]))]\<rparr>,
      [completion_request (py ''hi'')])\<close>
proof -
  have essay: \<open>read_essay (py ''{"essay": "hi"}'') = Inr (py ''hi'')\<close>
    by (simp add: run)
  have filled: "py ''hi'' \<noteq> []"
    by (simp add: py_def)
  have parsed: "json_loads (py ''[3, 4]'') = Inr (JArray [JInt 3, JInt 4])"
    by (simp add: run)
  have other: "\<forall>kvs. JArray [JInt 3, JInt 4] \<noteq> JObject kvs"
    by simp
  have \<open>grade (always (Completion [Some (py '' [3, 4]'')])) (py ''{"essay": "hi"}'') =
     (\<lparr>status = 500,
       payload = JObject [(py ''error'',
         JString ([39] @ type_name (JArray [JInt 3, JInt 4]) @ [39]
                  @ py '' object has no attribute '' @ [39] @ py ''keys'' @ [39]))]\<rparr>,
      [completion_request (py ''hi'')])\<close>
    by (rule non_object_reply_answers_500[OF essay filled _ parsed other])
       (simp add: always_def reply_text_def strip_def isspace_def py_def)
  then show ?thesis
    by simp
qed

text \<open>
  An object that lacks one of the keys is answered with 502 and is itself the \<^verbatim>\<open>raw\<close>
  entry of the payload.
\<close>

lemma object_missing_keys_answers_502:
  assumes "read_essay body = Inr essay" and "essay \<noteq> []"
    and "reply_text (create (completion_request essay)) = Inr text"
    and "parse_reply text = Inr (Parsed (JObject kvs))"
    and "\<not> set required \<subseteq> fst ` set kvs"
  shows "grade create body = (missing_keys (JObject kvs), [completion_request essay])"
proof -
  have "resolve text = Inr (missing_keys (JObject kvs))"
    using assms(4,5) by (simp add: resolve_def check_required_object)
  then show ?thesis
    using grade_after_call[where create = create, OF assms(1,2,3)] by simp
qed

text \<open>
  C6. The claim: a reply that parses as JSON, at once or after the repair, and lacks at
  least one of the seven keys is answered with 502, \<^verbatim>\<open>Missing keys in model output\<close>, and
  carries what was parsed. For an object this is the lemma above. The reply \<^verbatim>\<open>5\<close> parses as
  JSON and has none of the keys; the check of the keys raises on it, and the answer is
  500 with the text of the \<^verbatim>\<open>AttributeError\<close>.
\<close>

theorem number_reply_answers_500:
  \<open>json_loads (py ''5'') = Inr (JInt 5) \<and>
   grade (always (Completion [Some (py ''5'')])) (py ''{"essay": "hi"}'') =
     (\<lparr>status = 500,
       payload = JObject [(py ''error'',
         JString ([39] @ py ''int'' @ [39] @ py '' object has no attribute '' @ [39]
                  @ py ''keys'' @ [39]))]\<rparr>,
      [completion_request (py ''hi'')])\<close>
  by (simp add: run server_error_def)

subsection \<open>A reply that is not JSON\<close>

text \<open>
  C3. When \<^verbatim>\<open>json.loads\<close> rejects the trimmed reply, the handler takes the text from the
  first \<^verbatim>\<open>{\<close> to the last \<^verbatim>\<open>}\<close> and parses that. So for a reply made of an object between
  two texts, the one before it without \<^verbatim>\<open>{\<close> and the one after it without \<^verbatim>\<open>}\<close>, the match
  is the object, the object is what the handler parses, and the answer is the one the
  check of the keys gives for it.
\<close>

theorem brace_span_is_parsed:
  assumes "read_essay body = Inr essay" and "essay \<noteq> []"
    and "reply_text (create (completion_request essay)) = Inr (pre @ lbrace # mid @ rbrace # post)"
    and "lbrace \<notin> set pre" and "rbrace \<notin> set post"
    and "json_loads (pre @ lbrace # mid @ rbrace # post) = Inl (JSONDecodeError m d p)"
    and "json_loads (lbrace # mid @ [rbrace]) = Inr (JObject kvs)"
  shows "re_search_braces (pre @ lbrace # mid @ rbrace # post) = Some (lbrace # mid @ [rbrace])
       \<and> parse_reply (pre @ lbrace # mid @ rbrace # post) = Inr (Parsed (JObject kvs))
       \<and> grade create body =
           (if set required \<subseteq> fst ` set kvs then \<lparr>status = 200, payload = JObject kvs\<rparr>
            else missing_keys (JObject kvs),
            [completion_request essay])"
proof -
  let ?text = "pre @ lbrace # mid @ rbrace # post"
  have found: "re_search_braces ?text = Some (lbrace # mid @ [rbrace])"
    using assms(4,5) by (rule re_search_braces_found)
  have parsed: "parse_reply ?text = Inr (Parsed (JObject kvs))"
    using assms(6,7) found by (simp add: parse_reply_def)
  have "resolve ?text =
          Inr (if set required \<subseteq> fst ` set kvs then \<lparr>status = 200, payload = JObject kvs\<rparr>
               else missing_keys (JObject kvs))"
    using parsed by (simp add: resolve_def check_required_object)
  then have "grade create body =
           (if set required \<subseteq> fst ` set kvs then \<lparr>status = 200, payload = JObject kvs\<rparr>
            else missing_keys (JObject kvs),
            [completion_request essay])"
    using grade_after_call[where create = create, OF assms(1,2,3)] by simp
  with found parsed show ?thesis by simp
qed

theorem brace_span_is_parsed_witness:
  \<open>re_search_braces (py ''Here is the result: {"overall_score": 4} Thanks'') =
     Some (py ''{"overall_score": 4}'')
   \<and> parse_reply (py ''Here is the result: {"overall_score": 4} Thanks'') =
     Inr (Parsed (JObject [(py ''overall_score'', JInt 4)]))
   \<and> grade (always (Completion [Some (py ''Here is the result: {"overall_score": 4} Thanks'')]))
       (py ''{"essay": "hi"}'') =
     (missing_keys (JObject [(py ''overall_score'', JInt 4)]), [completion_request (py ''hi'')])\<close>
proof -
  have essay: \<open>read_essay (py ''{"essay": "hi"}'') = Inr (py ''hi'')\<close>
    by (simp add: run)
  have filled: "py ''hi'' \<noteq> []"
    by (simp add: py_def)
  have split: \<open>py ''Here is the result: {"overall_score": 4} Thanks'' =
      py ''Here is the result: '' @ lbrace # py ''"overall_score": 4'' @ rbrace # py '' Thanks''\<close>
    by (simp add: py_def lbrace_def rbrace_def)
  have object: \<open>py ''{"overall_score": 4}'' = lbrace # py ''"overall_score": 4'' @ [rbrace]\<close>
    by (simp add: py_def lbrace_def rbrace_def)
  have before: "lbrace \<notin> set (py ''Here is the result: '')"
    by (simp add: py_def lbrace_def)
  have after: "rbrace \<notin> set (py '' Thanks'')"
    by (simp add: py_def rbrace_def)
  have reply: \<open>reply_text
      (always (Completion [Some (py ''Here is the result: {"overall_score": 4} Thanks'')])
        (completion_request (py ''hi''))) =
      Inr (py ''Here is the result: '' @ lbrace # py ''"overall_score": 4'' @ rbrace # py '' Thanks'')\<close>
    unfolding split[symmetric]
    by (simp add: always_def reply_text_def strip_def isspace_def py_def)
  have strict: \<open>json_loads
      (py ''Here is the result: '' @ lbrace # py ''"overall_score": 4'' @ rbrace # py '' Thanks'') =
      Inl (JSONDecodeError msg_value (py ''Here is the result: {"overall_score": 4} Thanks'') 0)\<close>
    unfolding split[symmetric] by (simp add: run)
  have inner: \<open>json_loads (lbrace # py ''"overall_score": 4'' @ [rbrace]) =
      Inr (JObject [(py ''overall_score'', JInt 4)])\<close>
    unfolding object[symmetric] by (simp add: run)
  have missing: "\<not> set required \<subseteq> fst ` set [(py ''overall_score'', JInt 4)]"
    by (simp add: required_def py_def)
  from brace_span_is_parsed[where create = "always c" for c, OF essay filled reply before after strict inner]
  show ?thesis
    unfolding split[symmetric] object[symmetric] using missing by simp
qed

text \<open>
  C4. The claim: when \<^verbatim>\<open>json.loads\<close> rejects the trimmed reply and the span between the
  braces is found but is rejected too, the answer is 502 with
  \<^verbatim>\<open>Model returned non-JSON response\<close> and the text. The handler does not do this: the
  second \<^verbatim>\<open>json.loads\<close> is not guarded, its \<^verbatim>\<open>JSONDecodeError\<close> reaches the outer \<^verbatim>\<open>except\<close>,
  and the answer is 500 with the message of the decoder. So it is for the reply \<^verbatim>\<open>{oops}\<close>.
\<close>

theorem unparseable_span_answers_500:
  \<open>json_loads (py ''{oops}'') = Inl (JSONDecodeError msg_name (py ''{oops}'') 1) \<and>
   re_search_braces (py ''{oops}'') = Some (py ''{oops}'') \<and>
   grade (always (Completion [Some (py ''{oops}'')])) (py ''{"essay": "hi"}'') =
     (\<lparr>status = 500,
       payload = JObject [(py ''error'',
         JString (py ''Expecting property name enclosed in double quotes: line 1 column 2 (char 1)''))]\<rparr>,
      [completion_request (py ''hi'')])\<close>
  by (simp add: run server_error_def msg_name_def)

text \<open>
  C5. The claim: every reply without a span between braces is answered with 502,
  \<^verbatim>\<open>Model returned non-JSON response\<close>, and carries the text. The reply \<^verbatim>\<open>null\<close> has no
  brace and is not answered so: it is JSON, the search is never made, and the answer
  is 500 (C9).
\<close>

theorem no_span_counterexample:
  \<open>re_search_braces (py ''null'') = None \<and>
   fst (grade (always (Completion [Some (py ''null'')])) (py ''{"essay": "hi"}'')) =
     \<lparr>status = 500,
      payload = JObject [(py ''error'',
        JString ([39] @ py ''NoneType'' @ [39] @ py '' object has no attribute '' @ [39]
                 @ py ''keys'' @ [39]))]\<rparr> \<and>
   fst (grade (always (Completion [Some (py ''null'')])) (py ''{"essay": "hi"}'')) \<noteq>
     non_json (py ''null'')\<close>
  by (simp add: run server_error_def non_json_def)

text \<open>
  C5 as amended: when \<^verbatim>\<open>json.loads\<close> rejects the trimmed reply and no \<^verbatim>\<open>{\<close> of it is
  followed by a \<^verbatim>\<open>}\<close>, the answer is 502 with \<^verbatim>\<open>Model returned non-JSON response\<close>, and
  \<^verbatim>\<open>raw\<close> is the trimmed reply.
\<close>

theorem no_span_answers_502:
  assumes "read_essay body = Inr essay" and "essay \<noteq> []"
    and "reply_text (create (completion_request essay)) = Inr text"
    and "json_loads text = Inl (JSONDecodeError m d p)"
    and "\<not> (\<exists>pre mid post. text = pre @ lbrace # mid @ rbrace # post)"
  shows "grade create body =
           (\<lparr>status = 502,
             payload = JObject [(py ''error'', JString (py ''Model returned non-JSON response'')),
                                (py ''raw'', JString text)]\<rparr>,
            [completion_request essay])"
proof -
  have "re_search_braces text = None"
    using assms(5) by (simp add: re_search_braces_None_iff)
  then have "resolve text = Inr (non_json text)"
    using assms(4) by (simp add: resolve_def parse_reply_def)
  then show ?thesis
    using grade_after_call[where create = create, OF assms(1,2,3)] by (simp add: non_json_def)
qed

theorem no_span_answers_502_witness:
  \<open>grade (always (Completion [Some (py '' I cannot grade this.'' @ [10])]))
      (py ''{"essay": "hi"}'') =
     (\<lparr>status = 502,
       payload = JObject [(py ''error'', JString (py ''Model returned non-JSON response'')),
                          (py ''raw'', JString (py ''I cannot grade this.''))]\<rparr>,
      [completion_request (py ''hi'')])\<close>
proof -
  have essay: \<open>read_essay (py ''{"essay": "hi"}'') = Inr (py ''hi'')\<close>
    by (simp add: run)
  have filled: "py ''hi'' \<noteq> []"
    by (simp add: py_def)
  have reply: "reply_text
      (always (Completion [Some (py '' I cannot grade this.'' @ [10])])
        (completion_request (py ''hi''))) = Inr (py ''I cannot grade this.'')"
    by (simp add: always_def reply_text_def strip_def isspace_def py_def)
  have strict: "json_loads (py ''I cannot grade this.'') =
      Inl (JSONDecodeError msg_value (py ''I cannot grade this.'') 0)"
    by (simp add: run)
  have "re_search_braces (py ''I cannot grade this.'') = None"
    by (simp add: run)
  then have none: "\<not> (\<exists>pre mid post.
      py ''I cannot grade this.'' = pre @ lbrace # mid @ rbrace # post)"
    by (rule iffD1[OF re_search_braces_None_iff])
  from no_span_answers_502[where create = "always c" for c, OF essay filled reply strict none]
  show ?thesis .
qed

subsection \<open>Exceptions\<close>

text \<open>
  What follows is about the view with its log lines. When every call to the logger
  returns and the API raises nothing but instances of \<^verbatim>\<open>Exception\<close>, it is the view of
  the subsections above.
\<close>

lemma grade_logged_silent:
  "grade_logged silent (plain create) body =
     (Inr (fst (grade create body)), snd (grade create body))"
  by (auto simp: grade_logged_def grade_logged_try_def resolve_logged_def
        check_required_logged_def after_def silent_def plain_def
        grade_def grade_try_def resolve_def check_required_def reply_text_def
        split: sum.splits prod.splits option.splits raised.splits chat_outcome.splits
          parsed.splits list.splits if_splits)

lemma at_most_one_call_logged: "length (snd (grade_logged logger create body)) \<le> 1"
  by (auto simp: grade_logged_def grade_logged_try_def
        split: sum.splits prod.splits option.splits raised.splits)

text \<open>
  \<^verbatim>\<open>emit\<close> lets through whatever the stream raises, a \<^verbatim>\<open>UnicodeEncodeError\<close> of the first
  \<^verbatim>\<open>write\<close> apart.
\<close>

lemma emit_lets_through:
  assumes "stream_write stderr (msg @ [10]) = Some x"
    and "\<forall>m. x \<noteq> Exception (UnicodeEncodeError m)"
  shows "emit stderr msg = Some x"
  using assms by (auto simp: emit_def split: raised.splits exn.splits)

text \<open>
  C7. The claim: whatever is raised in the flow of the view and is not turned into one
  of the answers 400 and 502 is caught by the last \<^verbatim>\<open>except\<close> and answered with 500, and no
  exception leaves the view. The clause is \<^verbatim>\<open>except Exception\<close>: a \<^verbatim>\<open>KeyboardInterrupt\<close>
  that is raised while the view waits for the API is not an instance of \<^verbatim>\<open>Exception\<close>. It
  is not caught, no answer is returned, and it leaves the view.
\<close>

theorem interrupt_leaves_the_view:
  \<open>grade_logged silent (raising KeyboardInterrupt) (py ''{"essay": "hi"}'') =
     (Inl KeyboardInterrupt, [completion_request (py ''hi'')])\<close>
  by (simp add: run run_logged)

text \<open>
  C7 as amended: an instance of \<^verbatim>\<open>Exception\<close> that leaves the body of the \<^verbatim>\<open>try\<close>, whether
  the code of the body, the API or a log line has raised it, is caught by the last
  \<^verbatim>\<open>except\<close>; when the call to the logger in that clause returns, the view returns 500
  with the text of the exception under \<^verbatim>\<open>error\<close>, so nothing leaves the view. The API has
  been called once at most: nothing was tried again.
\<close>

theorem caught_exception_becomes_500:
  assumes "grade_logged_try logger create body = (Inl (Exception e), calls)"
    and "logger (Unexpected_error (ascii_safe_preview (str_exn e))) = None"
  shows "grade_logged logger create body =
           (Inr \<lparr>status = 500, payload = JObject [(py ''error'', JString (str_exn e))]\<rparr>, calls)
       \<and> length calls \<le> 1"
proof -
  have answer: "grade_logged logger create body = (Inr (server_error e), calls)"
    using assms by (simp add: grade_logged_def after_def)
  moreover have "length calls \<le> 1"
    using at_most_one_call_logged[of logger create body] answer by simp
  ultimately show ?thesis by (simp add: server_error_def)
qed

theorem caught_exception_becomes_500_witness:
  \<open>grade_logged silent (raising (Exception (APIError (py ''Connection error.''))))
       (py ''{"essay": "hi"}'') =
     (Inr \<lparr>status = 500,
           payload = JObject [(py ''error'', JString (py ''Connection error.''))]\<rparr>,
      [completion_request (py ''hi'')])
   \<and> length [completion_request (py ''hi'')] \<le> 1\<close>
proof -
  have raised: \<open>grade_logged_try silent (raising (Exception (APIError (py ''Connection error.''))))
      (py ''{"essay": "hi"}'') =
      (Inl (Exception (APIError (py ''Connection error.''))), [completion_request (py ''hi'')])\<close>
    by (simp add: run run_logged)
  have logged: "silent (Unexpected_error (ascii_safe_preview
      (str_exn (APIError (py ''Connection error.''))))) = None"
    by (simp add: silent_def)
  from caught_exception_becomes_500[OF raised logged] show ?thesis
    by simp
qed

text \<open>
  The two ways in which an exception leaves the view: it is not an instance of
  \<^verbatim>\<open>Exception\<close>, or the call to the logger in the \<^verbatim>\<open>except\<close> clause has raised it. There is no
  other.
\<close>

lemma base_exception_leaves:
  assumes "grade_logged_try logger create body = (Inl x, calls)"
    and "\<forall>e. x \<noteq> Exception e"
  shows "grade_logged logger create body = (Inl x, calls)"
  using assms by (cases x) (simp_all add: grade_logged_def)

lemma log_failure_leaves:
  assumes "grade_logged_try logger create body = (Inl (Exception e), calls)"
    and "logger (Unexpected_error (ascii_safe_preview (str_exn e))) = Some x"
  shows "grade_logged logger create body = (Inl x, calls)"
  using assms by (simp add: grade_logged_def after_def)

lemma grade_logged_raises:
  assumes "grade_logged logger create body = (Inl x, calls)"
  shows "(grade_logged_try logger create body = (Inl x, calls) \<and> (\<forall>e. x \<noteq> Exception e))
       \<or> (\<exists>e. grade_logged_try logger create body = (Inl (Exception e), calls)
               \<and> logger (Unexpected_error (ascii_safe_preview (str_exn e))) = Some x)"
  using assms
  by (auto simp: grade_logged_def after_def
        split: sum.splits prod.splits option.splits raised.splits)

text \<open>
  With a stream that is broken the second way is taken on any request that has an
  essay: the log line of line 88 raises, the exception is caught, and the log line of
  line 128 raises again, before the API was ever called.
\<close>

lemma broken_pipe_leaves:
  \<open>grade_logged (safe_handler broken_pipe formatted) create (py ''{"essay": "hi"}'') =
     (Inl (Exception (OSError (py ''[Errno 32] Broken pipe''))), [])\<close>
  by (simp add: run run_logged)

text \<open>The status of an answer is one of four, and it is 500 exactly when something was raised.\<close>

lemma status_of_grade:
  "status (fst (grade create body)) \<in> {200, 400, 500, 502}"
  by (auto simp: grade_def grade_try_def resolve_def parse_reply_def check_required_def
        essay_required_def non_json_def missing_keys_def server_error_def
        split: sum.splits prod.splits exn.splits option.splits parsed.splits if_splits)

lemma status_500_iff:
  "status (fst (grade create body)) = 500 \<longleftrightarrow> (\<exists>e. fst (grade_try create body) = Inl e)"
  by (auto simp: grade_def grade_try_def resolve_def parse_reply_def check_required_def
        essay_required_def non_json_def missing_keys_def server_error_def
        split: sum.splits prod.splits exn.splits option.splits parsed.splits if_splits)

end
